theory Spec2Isabelle
  imports Complex_Main "HOL-Library.Char_ord" "HOL-Library.List_Lexorder"
begin

section \<open>Strings\<close>

text \<open>
  A Python \<open>str\<close> is modelled as a \<open>string\<close>: the list of the bytes of its UTF-8
  encoding. Splitting at \<open>/\<close>, searching for \<open>.\<close> and comparing (the order of
  \<open>HOL-Library.Char_ord\<close> and \<open>HOL-Library.List_Lexorder\<close>: by character code, a
  proper prefix first) act on such lists as the Python operations act on the \<open>str\<close>.
\<close>

text \<open>\<open>str.lower\<close>, on the ASCII letters: the only characters it can map into a
  member of \<open>SUPPORTED_EXTENSIONS\<close>.\<close>

definition lower_char :: "char \<Rightarrow> char" where
  "lower_char c =
     (if CHR ''A'' \<le> c \<and> c \<le> CHR ''Z'' then char_of (of_char c + (32::nat)) else c)"

definition lower :: "string \<Rightarrow> string" where
  "lower s = map lower_char s"

text \<open>\<open>s.rfind(c)\<close>: the last index of \<open>c\<close> in \<open>s\<close>, or \<open>-1\<close>.\<close>

fun rfind :: "char \<Rightarrow> string \<Rightarrow> int" where
  "rfind c [] = - 1"
| "rfind c (x # xs) =
     (let r = rfind c xs in if 0 \<le> r then r + 1 else if x = c then 0 else - 1)"

text \<open>\<open>s.split(c)\<close>: the pieces between the occurrences of \<open>c\<close>, empty ones kept.\<close>

fun split :: "char \<Rightarrow> string \<Rightarrow> string list" where
  "split c [] = [[]]"
| "split c (x # xs) =
     (if x = c then [] # split c xs
      else (case split c xs of [] \<Rightarrow> [[x]] | y # ys \<Rightarrow> (x # y) # ys))"

text \<open>\<open>sep.join(xs)\<close>.\<close>

fun join :: "string \<Rightarrow> string list \<Rightarrow> string" where
  "join sep [] = []"
| "join sep [x] = x"
| "join sep (x # y # ys) = x @ sep @ join sep (y # ys)"

section \<open>\<open>pathlib.Path\<close> on a POSIX system\<close>

text \<open>
  A path is its root (\<open>''''\<close>, \<open>''/''\<close> or \<open>''//''\<close>) and the names after the root.
  \<open>Path\<close> parses a string as \<open>PurePosixPath\<close> does: the leading slashes give the
  root (exactly two of them the root \<open>//\<close>), the rest is split at \<open>/\<close>, and empty
  pieces and \<open>.\<close> pieces are dropped.
\<close>

record ppath =
  anchor :: string
  names :: "string list"

definition splitroot :: "string \<Rightarrow> string \<times> string" where
  "splitroot part =
     (if part \<noteq> [] \<and> hd part = CHR ''/'' then
        (let stripped_part = dropWhile (\<lambda>c. c = CHR ''/'') part in
         if int (length part) - int (length stripped_part) = 2 then (''//'', stripped_part)
         else (''/'', stripped_part))
      else ('''', part))"

definition Path :: "string \<Rightarrow> ppath" where
  "Path s =
     (case splitroot s of (r, rel) \<Rightarrow>
        \<lparr>anchor = r, names = filter (\<lambda>x. x \<noteq> [] \<and> x \<noteq> ''.'') (split CHR ''/'' rel)\<rparr>)"

text \<open>\<open>str(path)\<close>: the root and the names joined by \<open>/\<close>; the empty path is \<open>.\<close>.\<close>

definition str :: "ppath \<Rightarrow> string" where
  "str p = (let s = anchor p @ join ''/'' (names p) in if s = [] then ''.'' else s)"

text \<open>\<open>path.name\<close>: the last name, or the empty string when there is none.\<close>

definition name :: "ppath \<Rightarrow> string" where
  "name p = (if names p = [] then [] else last (names p))"

text \<open>\<open>path.suffix\<close> and \<open>path.stem\<close>: the name is cut at its last dot, unless
  that dot is the first or the last character of the name.\<close>

definition suffix :: "ppath \<Rightarrow> string" where
  "suffix p =
     (let i = rfind CHR ''.'' (name p) in
      if 0 < i \<and> i < int (length (name p)) - 1 then drop (nat i) (name p) else [])"

definition stem :: "ppath \<Rightarrow> string" where
  "stem p =
     (let i = rfind CHR ''.'' (name p) in
      if 0 < i \<and> i < int (length (name p)) - 1 then take (nat i) (name p) else name p)"

text \<open>\<open>path.parent\<close>: the last name dropped; a path with no names is its own parent.\<close>

definition parent :: "ppath \<Rightarrow> ppath" where
  "parent p = p\<lparr>names := butlast (names p)\<rparr>"

text \<open>\<open>path / key\<close>: the key is parsed; a key with a root replaces the path, any
  other key adds its names.\<close>

definition truediv :: "ppath \<Rightarrow> string \<Rightarrow> ppath" where
  "truediv p key =
     (let q = Path key in
      if anchor q \<noteq> [] then q else p\<lparr>names := names p @ names q\<rparr>)"

section \<open>Exceptions and effects\<close>

text \<open>
  Exceptions: \<open>KeyboardInterrupt\<close>, and any \<open>Exception\<close> (an \<open>OSError\<close> and a
  Rich \<open>MarkupError\<close> among them) with its message \<open>str(e)\<close>. An effect on a state
  \<open>'s\<close> returns the state with either the exception raised or the value returned.
  Floats (the clock, the progress fraction) are modelled by the rationals they
  approximate.
\<close>

datatype exn = KeyboardInterrupt | Exception string

type_synonym ('a, 's) effect = "'s \<Rightarrow> (exn + 'a) \<times> 's"

section \<open>The file system\<close>

text \<open>
  What \<open>os.stat\<close> and \<open>os.access\<close> give for a path string: the kind of the node and
  whether it may be read, or the error that \<open>os.stat\<close> raises: an \<open>OSError\<close> with
  its \<open>errno\<close> and message, or the \<open>ValueError\<close> of a string that holds a NUL
  byte.
\<close>

datatype node = RegularFile | Directory | Special

record status =
  kind :: node
  readable :: bool

datatype stat_error = OSError nat string | ValueError

type_synonym filesystem = "string \<Rightarrow> stat_error + status"

text \<open>\<open>pathlib\<close> ignores the errors \<open>ENOENT\<close>, \<open>ENOTDIR\<close>, \<open>EBADF\<close> and
  \<open>ELOOP\<close> (2, 20, 9 and 40 on Linux) and the \<open>ValueError\<close>: for them
  \<open>path.exists()\<close> and \<open>path.is_file()\<close> return \<open>False\<close>. Any other \<open>OSError\<close>,
  such as \<open>ENAMETOOLONG\<close> or \<open>EACCES\<close>, is raised again.\<close>

definition ignore_error :: "nat \<Rightarrow> bool" where
  "ignore_error errno = (errno = 2 \<or> errno = 20 \<or> errno = 9 \<or> errno = 40)"

definition path_exists :: "filesystem \<Rightarrow> ppath \<Rightarrow> exn + bool" where
  "path_exists fs p =
     (case fs (str p) of
        Inr st \<Rightarrow> Inr True
      | Inl (OSError errno message) \<Rightarrow>
          if ignore_error errno then Inr False else Inl (Exception message)
      | Inl ValueError \<Rightarrow> Inr False)"

definition path_is_file :: "filesystem \<Rightarrow> ppath \<Rightarrow> exn + bool" where
  "path_is_file fs p =
     (case fs (str p) of
        Inr st \<Rightarrow> Inr (kind st = RegularFile)
      | Inl (OSError errno message) \<Rightarrow>
          if ignore_error errno then Inr False else Inl (Exception message)
      | Inl ValueError \<Rightarrow> Inr False)"

section \<open>\<open>AudioProcessor\<close>\<close>

definition SUPPORTED_EXTENSIONS :: "string set" where
  "SUPPORTED_EXTENSIONS = {''.mp3'', ''.wav'', ''.flac'', ''.ogg'', ''.m4a''}"

definition PROCESSING_STEPS :: "string list" where
  "PROCESSING_STEPS =
     [''Loading audio file'',
      ''Analyzing frequency spectrum'',
      ''Separating vocals'',
      ''Separating drums'',
      ''Separating bass'',
      ''Separating other instruments'',
      ''Writing output files'']"

text \<open>\<open>sorted(s)\<close> of a set of strings.\<close>

definition sorted_of :: "string set \<Rightarrow> string list" where
  "sorted_of S = sorted_list_of_set S"

text \<open>\<open>validate_audio_file\<close> returns its pair, or raises what \<open>path.exists()\<close> or
  \<open>path.is_file()\<close> raises.\<close>

definition validate_audio_file :: "filesystem \<Rightarrow> string \<Rightarrow> exn + bool \<times> string" where
  "validate_audio_file fs file_path =
     (let path = Path file_path in
      case path_exists fs path of
        Inl e \<Rightarrow> Inl e
      | Inr there \<Rightarrow>
          if \<not> there then Inr (False, ''File not found: '' @ file_path)
          else
            (case path_is_file fs path of
               Inl e \<Rightarrow> Inl e
             | Inr regular \<Rightarrow>
                 if \<not> regular then Inr (False, ''Path is not a file: '' @ file_path)
                 else if lower (suffix path) \<notin> SUPPORTED_EXTENSIONS then
                   (let supported = join '', '' (sorted_of SUPPORTED_EXTENSIONS) in
                    Inr (False,
                      ''Unsupported file extension: '' @ suffix path @ [CHR 0x0A] @
                      ''Supported formats: '' @ supported))
                 else Inr (True, [])))"

definition get_supported_formats :: "string list" where
  "get_supported_formats = sorted_of SUPPORTED_EXTENSIONS"

text \<open>The two functions of the \<open>time\<close> module that \<open>process_audio\<close> calls.\<close>

record 's time_module =
  time_time :: "'s \<Rightarrow> rat"
  time_sleep :: "rat \<Rightarrow> (unit, 's) effect"

record result =
  stems :: "string list"
  duration :: rat

definition stem_names :: "string list" where
  "stem_names = [''vocals'', ''drums'', ''bass'', ''other'']"

text \<open>The inner loop over \<open>stem_names\<close>, appending to \<open>generated_stems\<close>.\<close>

fun generate_stems :: "ppath \<Rightarrow> string list \<Rightarrow> string list \<Rightarrow> string list" where
  "generate_stems path [] generated_stems = generated_stems"
| "generate_stems path (stem_name # rest) generated_stems =
     (let stem_file = truediv (parent path) (stem path @ ''_'' @ stem_name @ suffix path)
      in generate_stems path rest (generated_stems @ [str stem_file]))"

text \<open>
  The loop over \<open>enumerate(PROCESSING_STEPS)\<close>. Beside the state and the stems
  generated so far it carries \<open>calls\<close>, the record of the callback's invocations
  (stage name and fraction), each entered as the callback is called. An exception of
  the callback or of \<open>time.sleep\<close> ends the loop.
\<close>

fun process_steps ::
  "'s time_module \<Rightarrow> (string \<Rightarrow> rat \<Rightarrow> (unit, 's) effect) \<Rightarrow> nat \<Rightarrow> ppath \<Rightarrow>
   (nat \<times> string) list \<Rightarrow> string list \<Rightarrow> (string \<times> rat) list \<Rightarrow> 's \<Rightarrow>
   (string \<times> rat) list \<times> (exn + string list) \<times> 's" where
  "process_steps tm progress_callback total_steps path [] generated_stems calls s =
     (calls, Inr generated_stems, s)"
| "process_steps tm progress_callback total_steps path ((i, step) # rest) generated_stems calls s =
     (let progress = of_nat (i + 1) / of_nat total_steps in
      case progress_callback step progress s of
        (Inl e, s1) \<Rightarrow> (calls @ [(step, progress)], Inl e, s1)
      | (Inr _, s1) \<Rightarrow>
          (case time_sleep tm (1 / 2) s1 of
             (Inl e, s2) \<Rightarrow> (calls @ [(step, progress)], Inl e, s2)
           | (Inr _, s2) \<Rightarrow>
               process_steps tm progress_callback total_steps path rest
                 (if int i = int total_steps - 1
                  then generate_stems path stem_names generated_stems
                  else generated_stems)
                 (calls @ [(step, progress)]) s2))"

definition process_audio ::
  "'s time_module \<Rightarrow> string \<Rightarrow> (string \<Rightarrow> rat \<Rightarrow> (unit, 's) effect) \<Rightarrow> 's \<Rightarrow>
   (string \<times> rat) list \<times> (exn + result) \<times> 's" where
  "process_audio tm file_path progress_callback s =
     (let start_time = time_time tm s;
          total_steps = length PROCESSING_STEPS;
          path = Path file_path
      in case process_steps tm progress_callback total_steps path
                (enumerate 0 PROCESSING_STEPS) [] [] s of
           (calls, Inl e, s') \<Rightarrow> (calls, Inl e, s')
         | (calls, Inr generated_stems, s') \<Rightarrow>
             (calls,
              Inr \<lparr>stems = generated_stems, duration = time_time tm s' - start_time\<rparr>,
              s'))"

section \<open>The console helpers\<close>

text \<open>
  What the command does to the Rich console, in order: the calls of
  \<open>console.print\<close> with their argument (markup with an optional style, a
  \<open>Text\<close>, a \<open>Panel\<close>), \<open>console.print_exception\<close>, and the calls on the
  progress bar. The world of the command is that record of calls and the state \<open>'e\<close>
  that the \<open>time\<close> module works on.
\<close>

datatype console_call =
    Print string "string option"
  | PrintText string string
  | PrintPanel string string string
  | PrintException
  | ProgressStart
  | ProgressAddTask string int
  | ProgressUpdate string int
  | ProgressStop

record 'e world =
  console :: "console_call list"
  env :: 'e

definition emit :: "console_call \<Rightarrow> 'e world \<Rightarrow> 'e world" where
  "emit c w = w\<lparr>console := console w @ [c]\<rparr>"

text \<open>
  What the model leaves to the libraries. Rich parses the markup of a string that it
  prints and raises a \<open>MarkupError\<close> for a closing tag that closes nothing:
  \<open>markup_error\<close> gives the message of that error for a string, if it raises one.
  A \<open>Text\<close> is printed as it is, and the markup that the source writes out itself is
  well formed, so those calls return normally; the markup built from the stem paths goes
  through \<open>markup_error\<close>. \<open>format_2f\<close> is the format \<open>{duration:.2f}\<close> of a float
  and \<open>percentage\<close> is \<open>int(progress_fraction * 100)\<close> in floating point, whose
  rounding the rationals do not fix.
\<close>

record library =
  markup_error :: "string \<Rightarrow> string option"
  format_2f :: "rat \<Rightarrow> string"
  percentage :: "rat \<Rightarrow> int"

text \<open>The signs that start a message: U+2717, U+2139 and U+2713, and the box drawing
  character U+2550 of the banner, in UTF-8.\<close>

definition ballot_x :: string where
  "ballot_x = [CHR 0xE2, CHR 0x9C, CHR 0x97]"

definition information_source :: string where
  "information_source = [CHR 0xE2, CHR 0x84, CHR 0xB9]"

definition check_mark :: string where
  "check_mark = [CHR 0xE2, CHR 0x9C, CHR 0x93]"

definition box_double_horizontal :: string where
  "box_double_horizontal = [CHR 0xE2, CHR 0x95, CHR 0x90]"

definition print_error :: "string \<Rightarrow> 'e world \<Rightarrow> 'e world" where
  "print_error message = emit (PrintText (ballot_x @ '' '' @ message) ''bold red'')"

definition print_info :: "string \<Rightarrow> 'e world \<Rightarrow> 'e world" where
  "print_info message = emit (PrintText (information_source @ '' '' @ message) ''bold blue'')"

text \<open>\<open>console.print\<close> of markup built from data, and \<open>print_panel\<close>, whose panel
  renders its message as markup.\<close>

definition print_markup :: "library \<Rightarrow> string \<Rightarrow> string option \<Rightarrow> (unit, 'e world) effect" where
  "print_markup lib markup style w =
     (case markup_error lib markup of
        Some message \<Rightarrow> (Inl (Exception message), w)
      | None \<Rightarrow> (Inr (), emit (Print markup style) w))"

definition print_panel ::
  "library \<Rightarrow> string \<Rightarrow> string \<Rightarrow> string \<Rightarrow> (unit, 'e world) effect" where
  "print_panel lib message title style w =
     (case markup_error lib message of
        Some error_message \<Rightarrow> (Inl (Exception error_message), w)
      | None \<Rightarrow> (Inr (), emit (PrintPanel message title style) w))"

section \<open>The \<open>separate\<close> command\<close>

text \<open>\<open>str(n)\<close> of a natural number.\<close>

fun str_nat :: "nat \<Rightarrow> string" where
  "str_nat n =
     (if n < 10 then [char_of (48 + n)] else str_nat (n div 10) @ [char_of (48 + n mod 10)])"

declare str_nat.simps [simp del]

text \<open>The callback that \<open>separate\<close> hands to \<open>process_audio\<close>.\<close>

definition update_progress :: "library \<Rightarrow> string \<Rightarrow> rat \<Rightarrow> (unit, 'e world) effect" where
  "update_progress lib description progress_fraction w =
     (let percentage = percentage lib progress_fraction
      in (Inr (), emit (ProgressUpdate (''[cyan]'' @ description) percentage) w))"

text \<open>The \<open>time\<close> module acts on the \<open>env\<close> part of the world.\<close>

definition on_env :: "'e time_module \<Rightarrow> 'e world time_module" where
  "on_env tm =
     \<lparr>time_time = (\<lambda>w. time_time tm (env w)),
      time_sleep = (\<lambda>d w. case time_sleep tm d (env w) of (r, e) \<Rightarrow> (r, w\<lparr>env := e\<rparr>))\<rparr>"

text \<open>
  How the command ends: it returns, it calls \<open>sys.exit\<close>, or an exception leaves it. A
  run records, beside that and the final world, what \<open>process_audio\<close> did if it was
  called (\<open>processed\<close>) and the invocations of the callback (\<open>invocations\<close>). When
  the command returns, \<open>click\<close> ends the process with exit status 0; an exception
  that nothing handles ends it with status 1.
\<close>

datatype outcome = Returned | SysExit int | Raised exn

record 'e run =
  outcome :: outcome
  processed :: "(exn + result) option"
  invocations :: "(string \<times> rat) list"
  world :: "'e world"

fun exit_code :: "outcome \<Rightarrow> int" where
  "exit_code Returned = 0"
| "exit_code (SysExit n) = n"
| "exit_code (Raised e) = 1"

definition display_header :: "bool \<Rightarrow> string \<Rightarrow> string option \<Rightarrow> 'e world \<Rightarrow> 'e world" where
  "display_header verbose audio_file output_dir w0 =
     (if verbose then
        (let wa = emit (Print ([CHR 0x0A] @ ''[bold cyan]'' @ box_double_horizontal @
                      box_double_horizontal @ box_double_horizontal @
                      '' Audio Stem Separator '' @ box_double_horizontal @
                      box_double_horizontal @ box_double_horizontal @
                      ''[/bold cyan]'' @ [CHR 0x0A]) None) w0;
             wb = print_info (''Input file: '' @ audio_file) wa
         in case output_dir of
              None \<Rightarrow> wb
            | Some d \<Rightarrow> if d \<noteq> [] then print_info (''Output directory: '' @ d) wb else wb)
      else w0)"

text \<open>The message of the success panel, and a line of the verbose listing.\<close>

definition success_message :: "library \<Rightarrow> result \<Rightarrow> string" where
  "success_message lib result =
     (let duration = duration result;
          stems = stems result;
          stem_lines = join [CHR 0x0A]
            (map (\<lambda>stem. ''[white]- [cyan]'' @ name (Path stem) @ ''[/cyan]'') stems)
      in ''[green]Successfully separated audio into '' @ str_nat (length stems) @
         '' stems[/green]'' @ [CHR 0x0A] @
         ''[dim]Processing time: '' @ format_2f lib duration @ '' seconds[/dim]'' @
         [CHR 0x0A, CHR 0x0A] @
         ''[bold]Generated files:[/bold]'' @ [CHR 0x0A] @ stem_lines)"

definition stem_line :: "nat \<Rightarrow> string \<Rightarrow> string" where
  "stem_line i stem_file = ''  '' @ str_nat i @ ''. [cyan]'' @ stem_file @ ''[/cyan]''"

text \<open>The loop \<open>for i, stem in enumerate(stems, 1)\<close> of the verbose listing.\<close>

fun print_stems :: "library \<Rightarrow> (nat \<times> string) list \<Rightarrow> (unit, 'e world) effect" where
  "print_stems lib [] w = (Inr (), w)"
| "print_stems lib ((i, stem_file) # rest) w =
     (case print_markup lib (stem_line i stem_file) None w of
        (Inl e, w') \<Rightarrow> (Inl e, w')
      | (Inr _, w') \<Rightarrow> print_stems lib rest w')"

text \<open>The display of the results, the last part of the \<open>try\<close> block.\<close>

definition display_results :: "library \<Rightarrow> bool \<Rightarrow> result \<Rightarrow> (unit, 'e world) effect" where
  "display_results lib verbose result w9 =
     (let w10 = emit (Print [] None) w9 in
      case print_panel lib (success_message lib result) (check_mark @ '' Complete'')
             ''green'' w10 of
        (Inl e, w11) \<Rightarrow> (Inl e, w11)
      | (Inr _, w11) \<Rightarrow>
          if verbose then
            (let w12 = emit (Print ([CHR 0x0A] @
                         ''[bold]Generated stems (full paths):[/bold]'') None) w11
             in case print_stems lib (enumerate 1 (stems result)) w12 of
                  (Inl e, w13) \<Rightarrow> (Inl e, w13)
                | (Inr _, w13) \<Rightarrow> (Inr (), emit (Print [] None) w13))
          else (Inr (), w11))"

text \<open>
  \<open>separate\<close>, the function that \<open>click\<close> calls with the values of the argument
  and the options; \<open>output_dir\<close> is \<open>None\<close> when the option is not given. The
  validation stands before the \<open>try\<close> block, so what it raises leaves the function;
  what \<open>process_audio\<close> or the display of the results raises reaches the two
  \<open>except\<close> clauses.
\<close>

definition separate ::
  "library \<Rightarrow> 'e time_module \<Rightarrow> filesystem \<Rightarrow> string \<Rightarrow> string option \<Rightarrow> bool \<Rightarrow>
   'e world \<Rightarrow> 'e run" where
  "separate lib tm fs audio_file output_dir verbose w0 =
     (let w1 = display_header verbose audio_file output_dir w0
      in case validate_audio_file fs audio_file of
        Inl e \<Rightarrow> \<lparr>outcome = Raised e, processed = None, invocations = [], world = w1\<rparr>
      | Inr (is_valid, error_message) \<Rightarrow>
          if \<not> is_valid then
            (let w2 = print_error error_message w1;
                 formats = get_supported_formats;
                 w3 = emit (Print ([CHR 0x0A] @ ''[dim]Supported formats: '' @
                              join '', '' formats @ ''[/dim]'' @ [CHR 0x0A]) (Some ''yellow'')) w2
             in \<lparr>outcome = SysExit 1, processed = None, invocations = [], world = w3\<rparr>)
          else
            (let w4 = print_info (''Processing: '' @ name (Path audio_file)) w1;
                 w5 = emit (Print [] None) w4;
                 w6 = emit ProgressStart w5;
                 w7 = emit (ProgressAddTask ''[cyan]Initializing...'' 100) w6
             in case process_audio (on_env tm) audio_file (update_progress lib) w7 of
               (calls, r, w8) \<Rightarrow>
                 (let w9 = emit ProgressStop w8 in
                  case (case r of
                          Inl e \<Rightarrow> (Inl e, w9)
                        | Inr result \<Rightarrow> display_results lib verbose result w9) of
                    (Inr u, w10) \<Rightarrow>
                      \<lparr>outcome = Returned, processed = Some r, invocations = calls,
                       world = w10\<rparr>
                  | (Inl KeyboardInterrupt, w10) \<Rightarrow>
                      (let w11 = emit (Print [CHR 0x0A] None) w10;
                           w12 = print_error ''Processing cancelled by user'' w11
                       in \<lparr>outcome = SysExit 130, processed = Some r, invocations = calls,
                           world = w12\<rparr>)
                  | (Inl (Exception e), w10) \<Rightarrow>
                      (let w11 = emit (Print [CHR 0x0A] None) w10;
                           w12 = print_error (''An error occurred during processing: '' @ e) w11;
                           w13 = (if verbose then emit PrintException w12 else w12)
                       in \<lparr>outcome = SysExit 1, processed = Some r, invocations = calls,
                           world = w13\<rparr>))))"

section \<open>The command line\<close>

text \<open>
  Before it calls \<open>separate\<close>, \<open>click\<close> converts the argument and the option with
  the \<open>click.Path\<close> types that the decorators declare. \<open>click.Path.convert\<close> calls
  \<open>os.stat\<close> on the value: when that raises an \<open>OSError\<close> the value passes (no
  type here asks that the path exists); when the node is a regular file and
  \<open>file_okay\<close> is false, a directory and \<open>dir_okay\<close> is false, or the node may
  not be read, the value is refused and the process ends with the exit status 2 of a
  usage error. The message goes to the standard error, not to the Rich console.
\<close>

datatype 'a conversion = Accepted 'a | Refused | Crashed exn

definition click_path :: "filesystem \<Rightarrow> bool \<Rightarrow> bool \<Rightarrow> string \<Rightarrow> string conversion" where
  "click_path fs file_okay dir_okay val =
     (case fs val of
        Inl (OSError errno message) \<Rightarrow> Accepted val
      | Inl ValueError \<Rightarrow> Crashed (Exception ''embedded null byte'')
      | Inr st \<Rightarrow>
          if \<not> file_okay \<and> kind st = RegularFile then Refused
          else if \<not> dir_okay \<and> kind st = Directory then Refused
          else if \<not> readable st then Refused
          else Accepted val)"

definition usage_error :: "'e world \<Rightarrow> 'e run" where
  "usage_error w = \<lparr>outcome = SysExit 2, processed = None, invocations = [], world = w\<rparr>"

definition crashed :: "exn \<Rightarrow> 'e world \<Rightarrow> 'e run" where
  "crashed e w = \<lparr>outcome = Raised e, processed = None, invocations = [], world = w\<rparr>"

text \<open>The command \<open>separate AUDIO_FILE [--output-dir DIR] [--verbose]\<close>: the
  argument is a \<open>click.Path(exists=False)\<close>, the option a
  \<open>click.Path(file_okay=False, dir_okay=True)\<close>.\<close>

definition separate_command ::
  "library \<Rightarrow> 'e time_module \<Rightarrow> filesystem \<Rightarrow> string \<Rightarrow> string option \<Rightarrow> bool \<Rightarrow>
   'e world \<Rightarrow> 'e run" where
  "separate_command lib tm fs audio_file output_dir verbose w =
     (case click_path fs True True audio_file of
        Refused \<Rightarrow> usage_error w
      | Crashed e \<Rightarrow> crashed e w
      | Accepted a \<Rightarrow>
          (case output_dir of
             None \<Rightarrow> separate lib tm fs a None verbose w
           | Some d \<Rightarrow>
               (case click_path fs False True d of
                  Refused \<Rightarrow> usage_error w
                | Crashed e \<Rightarrow> crashed e w
                | Accepted dir \<Rightarrow> separate lib tm fs a (Some dir) verbose w)))"

section \<open>Parsed paths and example environments\<close>

text \<open>What every parsed path satisfies: the root is one of the three, and no name is
  empty, is \<open>.\<close> or holds a slash.\<close>

definition wf_path :: "ppath \<Rightarrow> bool" where
  "wf_path p =
     (anchor p \<in> {[], ''/'', ''//''} \<and>
      (\<forall>x \<in> set (names p). x \<noteq> [] \<and> x \<noteq> ''.'' \<and> CHR ''/'' \<notin> set x))"

text \<open>
  Concrete environments for the examples. A file system with a few readable regular
  files and a directory, where nothing else exists and \<open>os.stat\<close> refuses a string of
  more than 255 bytes with \<open>ENAMETOOLONG\<close> (36). A clock that \<open>time.sleep\<close>
  advances; the same clock with a sleep that is interrupted, or fails, once a second
  has passed. A callback that does nothing, and one that writes down what it is called
  with, on a state that pairs the clock with that record. A library whose markup parser
  refuses every string that holds the closing tag \<open>[/a]\<close>.
\<close>

definition example_fs :: filesystem where
  "example_fs s =
     (if 255 < length s then Inl (OSError 36 ''File name too long'')
      else if s = ''a/song.MP3'' \<or> s = ''song.mp3'' \<or> s = ''.mp3'' \<or> s = ''notes.txt'' \<or>
              s = ''x[/a].mp3''
      then Inr \<lparr>kind = RegularFile, readable = True\<rparr>
      else if s = ''music'' then Inr \<lparr>kind = Directory, readable = True\<rparr>
      else Inl (OSError 2 ''No such file or directory''))"

definition example_time :: "rat time_module" where
  "example_time = \<lparr>time_time = (\<lambda>t. t), time_sleep = (\<lambda>d t. (Inr (), t + d))\<rparr>"

definition interrupted_time :: "rat time_module" where
  "interrupted_time =
     \<lparr>time_time = (\<lambda>t. t),
      time_sleep = (\<lambda>d t. if 1 \<le> t then (Inl KeyboardInterrupt, t) else (Inr (), t + d))\<rparr>"

definition failing_time :: "rat time_module" where
  "failing_time =
     \<lparr>time_time = (\<lambda>t. t),
      time_sleep = (\<lambda>d t. if 1 \<le> t then (Inl (Exception ''device lost''), t)
                          else (Inr (), t + d))\<rparr>"

definition quiet_callback :: "string \<Rightarrow> rat \<Rightarrow> (unit, 's) effect" where
  "quiet_callback description progress_fraction s = (Inr (), s)"

definition recording_time :: "(rat \<times> (string \<times> rat) list) time_module" where
  "recording_time =
     \<lparr>time_time = (\<lambda>(t, seen). t), time_sleep = (\<lambda>d (t, seen). (Inr (), (t + d, seen)))\<rparr>"

definition recording_callback ::
  "string \<Rightarrow> rat \<Rightarrow> (unit, rat \<times> (string \<times> rat) list) effect" where
  "recording_callback description progress_fraction s =
     (case s of (t, seen) \<Rightarrow> (Inr (), (t, seen @ [(description, progress_fraction)])))"

definition example_world :: "rat world" where
  "example_world = \<lparr>console = [], env = 0\<rparr>"

fun is_infix :: "string \<Rightarrow> string \<Rightarrow> bool" where
  "is_infix pat [] = (pat = [])"
| "is_infix pat (x # xs) = (take (length pat) (x # xs) = pat \<or> is_infix pat xs)"

definition example_library :: library where
  "example_library =
     \<lparr>markup_error = (\<lambda>s. if is_infix ''[/a]'' s
                            then Some ''closing tag [/a] does not match any open tag''
                            else None),
      format_2f = (\<lambda>x. ''3.50''),
      percentage = (\<lambda>x. \<lfloor>x * 100\<rfloor>)\<rparr>"

section \<open>Supported formats\<close>

lemma get_supported_formats_eq:
  "get_supported_formats = [''.flac'', ''.m4a'', ''.mp3'', ''.ogg'', ''.wav'']"
  unfolding get_supported_formats_def sorted_of_def SUPPORTED_EXTENSIONS_def
  by code_simp

lemma finite_SUPPORTED_EXTENSIONS: "finite SUPPORTED_EXTENSIONS"
  by (simp add: SUPPORTED_EXTENSIONS_def)

lemma supported_message:
  "join '', '' (sorted_of SUPPORTED_EXTENSIONS) = ''.flac, .m4a, .mp3, .ogg, .wav''"
  using get_supported_formats_eq by (simp add: get_supported_formats_def)

text \<open>
  Claim C8. \<open>get_supported_formats()\<close> returns exactly five entries, sorted in the
  order of strings, without duplicates: the members of \<open>SUPPORTED_EXTENSIONS\<close>, that
  is \<open>.flac, .m4a, .mp3, .ogg, .wav\<close>.
\<close>

theorem get_supported_formats_five_sorted:
  "length get_supported_formats = 5 \<and>
   sorted get_supported_formats \<and>
   distinct get_supported_formats \<and>
   set get_supported_formats = SUPPORTED_EXTENSIONS \<and>
   get_supported_formats = [''.flac'', ''.m4a'', ''.mp3'', ''.ogg'', ''.wav'']"
proof -
  have members: "sorted get_supported_formats" "distinct get_supported_formats"
    "set get_supported_formats = SUPPORTED_EXTENSIONS"
    by (simp_all add: get_supported_formats_def sorted_of_def finite_SUPPORTED_EXTENSIONS)
  have five: "length get_supported_formats = 5"
    by (simp add: get_supported_formats_eq)
  show ?thesis
    using members five get_supported_formats_eq by blast
qed

section \<open>Validation\<close>

lemma is_file_exists: "path_is_file fs p = Inr True \<Longrightarrow> path_exists fs p = Inr True"
  by (auto simp: path_is_file_def path_exists_def split: sum.splits stat_error.splits if_splits)

lemma exists_raises: "path_exists fs p = Inl e \<Longrightarrow> path_is_file fs p = Inl e"
  by (auto simp: path_is_file_def path_exists_def split: sum.splits stat_error.splits if_splits)

lemma validate_audio_file_raises:
  "path_exists fs (Path p) = Inl e \<Longrightarrow> validate_audio_file fs p = Inl e"
  by (simp add: validate_audio_file_def Let_def)

lemma validate_audio_file_returned:
  assumes "path_exists fs (Path p) = Inr there" and "path_is_file fs (Path p) = Inr regular"
  shows "validate_audio_file fs p =
    Inr (if \<not> there then (False, ''File not found: '' @ p)
         else if \<not> regular then (False, ''Path is not a file: '' @ p)
         else if lower (suffix (Path p)) \<notin> SUPPORTED_EXTENSIONS
         then (False,
               ''Unsupported file extension: '' @ suffix (Path p) @ [CHR 0x0A] @
               ''Supported formats: .flac, .m4a, .mp3, .ogg, .wav'')
         else (True, []))"
  using assms by (simp add: validate_audio_file_def Let_def supported_message)

text \<open>
  Claim C3, as amended. When \<open>path.exists()\<close> and \<open>path.is_file()\<close> return (they
  raise again every \<open>OSError\<close> but \<open>ENOENT\<close>, \<open>ENOTDIR\<close>, \<open>EBADF\<close> and
  \<open>ELOOP\<close>), \<open>validate_audio_file(p)\<close> returns invalid with a non-empty reason
  exactly when \<open>p\<close> does not exist, or exists and is not a regular file, or its
  extension in lower case is not a supported one; it returns valid with the empty reason
  exactly when \<open>p\<close> is an existing regular file whose extension in lower case is
  supported. When \<open>path.exists()\<close> raises, \<open>validate_audio_file\<close> raises the same
  error and returns nothing.
\<close>

theorem validate_audio_file_invalid_iff:
  "(\<forall>there regular.
      path_exists fs (Path p) = Inr there \<longrightarrow> path_is_file fs (Path p) = Inr regular \<longrightarrow>
      ((\<exists>reason. validate_audio_file fs p = Inr (False, reason) \<and> reason \<noteq> []) =
         (\<not> there \<or> (there \<and> \<not> regular) \<or>
          lower (suffix (Path p)) \<notin> SUPPORTED_EXTENSIONS)) \<and>
      ((validate_audio_file fs p = Inr (True, [])) =
         (there \<and> regular \<and> lower (suffix (Path p)) \<in> SUPPORTED_EXTENSIONS))) \<and>
   (\<forall>e. path_exists fs (Path p) = Inl e \<longrightarrow> validate_audio_file fs p = Inl e)"
proof -
  have returned:
    "((\<exists>reason. validate_audio_file fs p = Inr (False, reason) \<and> reason \<noteq> []) =
         (\<not> there \<or> (there \<and> \<not> regular) \<or>
          lower (suffix (Path p)) \<notin> SUPPORTED_EXTENSIONS)) \<and>
      ((validate_audio_file fs p = Inr (True, [])) =
         (there \<and> regular \<and> lower (suffix (Path p)) \<in> SUPPORTED_EXTENSIONS))"
    if "path_exists fs (Path p) = Inr there" and "path_is_file fs (Path p) = Inr regular"
    for there regular
  proof -
    have "regular \<Longrightarrow> there"
      using that is_file_exists [of fs "Path p"] by auto
    then show ?thesis
      unfolding validate_audio_file_returned [OF that] by auto
  qed
  show ?thesis
    using returned validate_audio_file_raises by blast
qed

theorem validate_audio_file_invalid_iff_witness:
  "validate_audio_file example_fs ''a/song.MP3'' = Inr (True, []) \<and>
   (\<exists>reason. validate_audio_file example_fs ''notes.txt'' = Inr (False, reason) \<and>
      reason \<noteq> []) \<and>
   (\<exists>reason. validate_audio_file example_fs ''music'' = Inr (False, reason) \<and>
      reason \<noteq> []) \<and>
   (\<exists>reason. validate_audio_file example_fs ''absent.wav'' = Inr (False, reason) \<and>
      reason \<noteq> [])"
proof -
  have song: "path_exists example_fs (Path ''a/song.MP3'') = Inr True"
      "path_is_file example_fs (Path ''a/song.MP3'') = Inr True"
      "lower (suffix (Path ''a/song.MP3'')) \<in> SUPPORTED_EXTENSIONS"
    by code_simp+
  have unsupported: "path_exists example_fs (Path ''notes.txt'') = Inr True"
      "path_is_file example_fs (Path ''notes.txt'') = Inr True"
      "lower (suffix (Path ''notes.txt'')) \<notin> SUPPORTED_EXTENSIONS"
    by code_simp+
  have music: "path_exists example_fs (Path ''music'') = Inr True"
      "path_is_file example_fs (Path ''music'') = Inr False"
    by code_simp+
  have absent: "path_exists example_fs (Path ''absent.wav'') = Inr False"
      "path_is_file example_fs (Path ''absent.wav'') = Inr False"
    by code_simp+
  show ?thesis
    using validate_audio_file_invalid_iff [of example_fs "''a/song.MP3''"]
      validate_audio_file_invalid_iff [of example_fs "''notes.txt''"]
      validate_audio_file_invalid_iff [of example_fs "''music''"]
      validate_audio_file_invalid_iff [of example_fs "''absent.wav''"]
      song unsupported music absent
    by blast
qed

text \<open>
  Claim C3 as the specification words it, for every path string, fails where
  \<open>os.stat\<close> raises an error that \<open>pathlib\<close> does not ignore: for a name of 300
  letters \<open>a\<close> and the extension \<open>.mp3\<close>, which does not exist,
  \<open>validate_audio_file\<close> raises the \<open>OSError\<close> of \<open>ENAMETOOLONG\<close>; it returns
  neither the invalid pair nor the valid one.
\<close>

theorem validate_audio_file_raises_counterexample:
  "validate_audio_file example_fs (replicate 300 CHR ''a'' @ ''.mp3'') =
     Inl (Exception ''File name too long'') \<and>
   validate_audio_file example_fs (replicate 300 CHR ''a'' @ ''.mp3'') \<noteq>
     Inr (False, ''File not found: '' @ replicate 300 CHR ''a'' @ ''.mp3'') \<and>
   validate_audio_file example_fs (replicate 300 CHR ''a'' @ ''.mp3'') \<noteq> Inr (True, [])"
  by code_simp

text \<open>
  Claim C4. For an existing regular file whose extension is not supported, the reason
  names the extension and then lists the five supported extensions in alphabetical
  order: \<open>.flac, .m4a, .mp3, .ogg, .wav\<close>.
\<close>

theorem validate_audio_file_lists_formats:
  assumes "path_exists fs (Path p) = Inr True" and "path_is_file fs (Path p) = Inr True"
    and "lower (suffix (Path p)) \<notin> SUPPORTED_EXTENSIONS"
  shows "validate_audio_file fs p =
    Inr (False,
      ''Unsupported file extension: '' @ suffix (Path p) @ [CHR 0x0A] @
      ''Supported formats: .flac, .m4a, .mp3, .ogg, .wav'')"
  using assms by (simp add: validate_audio_file_def Let_def supported_message)

theorem validate_audio_file_lists_formats_witness:
  "validate_audio_file example_fs ''notes.txt'' =
    Inr (False,
      ''Unsupported file extension: .txt'' @ [CHR 0x0A] @
      ''Supported formats: .flac, .m4a, .mp3, .ogg, .wav'')"
proof -
  have there: "path_exists example_fs (Path ''notes.txt'') = Inr True"
    by code_simp
  have regular: "path_is_file example_fs (Path ''notes.txt'') = Inr True"
    by code_simp
  have ext: "lower (suffix (Path ''notes.txt'')) \<notin> SUPPORTED_EXTENSIONS"
    by code_simp
  have shown: "suffix (Path ''notes.txt'') = ''.txt''"
    by code_simp
  show ?thesis
    using validate_audio_file_lists_formats [OF there regular ext] by (simp add: shown)
qed

lemma rfind_absent: "c \<notin> set s \<Longrightarrow> rfind c s = - 1"
  by (induction s) (auto simp: Let_def)

lemma suffix_no_dot: "CHR ''.'' \<notin> set (name P) \<Longrightarrow> suffix P = []"
  by (simp add: suffix_def rfind_absent)

lemma suffix_leading_dot:
  assumes "name P = CHR ''.'' # rest" and "CHR ''.'' \<notin> set rest"
  shows "suffix P = []"
  using assms by (simp add: suffix_def rfind_absent Let_def)

lemma lower_nil_unsupported: "lower [] \<notin> SUPPORTED_EXTENSIONS"
  by (simp add: lower_def SUPPORTED_EXTENSIONS_def)

text \<open>
  Claim C10. For an existing regular file whose name has no extension for \<open>pathlib\<close>
  (among them: a name without a dot, and a name whose only dot is its first character),
  \<open>validate_audio_file\<close> returns invalid with the unsupported-extension reason, and the
  extension it reports is the empty string.
\<close>

theorem validate_audio_file_no_extension:
  assumes "path_is_file fs (Path p) = Inr True"
    and "CHR ''.'' \<notin> set (name (Path p)) \<or>
         (\<exists>rest. name (Path p) = CHR ''.'' # rest \<and> CHR ''.'' \<notin> set rest) \<or>
         suffix (Path p) = []"
  shows "suffix (Path p) = [] \<and>
    validate_audio_file fs p =
      Inr (False,
        ''Unsupported file extension: '' @ [CHR 0x0A] @
        ''Supported formats: .flac, .m4a, .mp3, .ogg, .wav'')"
proof -
  have none: "suffix (Path p) = []"
    using assms(2) suffix_no_dot suffix_leading_dot by blast
  have "path_exists fs (Path p) = Inr True"
    using assms(1) by (rule is_file_exists)
  then show ?thesis
    using assms(1) none lower_nil_unsupported
    by (simp add: validate_audio_file_def Let_def supported_message)
qed

theorem validate_audio_file_no_extension_witness:
  "suffix (Path ''.mp3'') = [] \<and>
   validate_audio_file example_fs ''.mp3'' =
     Inr (False,
       ''Unsupported file extension: '' @ [CHR 0x0A] @
       ''Supported formats: .flac, .m4a, .mp3, .ogg, .wav'')"
proof -
  have regular: "path_is_file example_fs (Path ''.mp3'') = Inr True"
    by code_simp
  have "name (Path ''.mp3'') = CHR ''.'' # ''mp3''"
    by code_simp
  then have hidden: "CHR ''.'' \<notin> set (name (Path ''.mp3'')) \<or>
      (\<exists>rest. name (Path ''.mp3'') = CHR ''.'' # rest \<and> CHR ''.'' \<notin> set rest) \<or>
      suffix (Path ''.mp3'') = []"
    by simp
  show ?thesis
    using validate_audio_file_no_extension [OF regular hidden] .
qed

section \<open>The loop of \<open>process_audio\<close>\<close>

lemma generate_stems_eq:
  "generate_stems path labels gen =
     gen @ map (\<lambda>l. str (truediv (parent path) (stem path @ ''_'' @ l @ suffix path))) labels"
  by (induction labels arbitrary: gen) (simp_all add: Let_def)

text \<open>A loop that ends without an exception has called the callback once for every
  item, in order, and has generated stems at the items whose index is the last one.\<close>

lemma process_steps_returned:
  "process_steps tm cb n path items gen calls s = (calls', Inr gen', s') \<Longrightarrow>
   calls' = calls @ map (\<lambda>(i, step). (step, of_nat (i + 1) / of_nat n)) items \<and>
   gen' = foldl (\<lambda>g (i, step). if int i = int n - 1
                   then generate_stems path stem_names g else g) gen items"
proof (induction items arbitrary: gen calls s)
  case Nil
  then show ?case by simp
next
  case (Cons a items)
  obtain i step where a: "a = (i, step)" by (cases a)
  from Cons.prems show ?case
    unfolding a
    by (auto simp: Let_def split: prod.splits sum.splits dest!: Cons.IH)
qed

text \<open>When the callback returns normally at every item and \<open>time.sleep\<close> is never
  interrupted, the loop ends without an exception.\<close>

lemma process_steps_normal:
  assumes "\<forall>(i, step) \<in> set items. \<forall>s. \<exists>s'.
      cb step (of_nat (i + 1) / of_nat n) s = (Inr (), s')"
    and "\<forall>s. \<exists>s'. time_sleep tm (1 / 2) s = (Inr (), s')"
  shows "\<exists>calls' gen' s'.
    process_steps tm cb n path items gen calls s = (calls', Inr gen', s')"
  using assms(1)
proof (induction items arbitrary: gen calls s)
  case Nil
  then show ?case by simp
next
  case (Cons a items)
  obtain i step where a: "a = (i, step)" by (cases a)
  from Cons.prems obtain s1 where s1: "cb step (of_nat (i + 1) / of_nat n) s = (Inr (), s1)"
    unfolding a by fastforce
  from assms(2) obtain s2 where s2: "time_sleep tm (1 / 2) s1 = (Inr (), s2)" by blast
  have rest: "\<forall>(i, step) \<in> set items. \<forall>s. \<exists>s'.
      cb step (of_nat (i + 1) / of_nat n) s = (Inr (), s')"
    using Cons.prems by simp
  show ?case
    unfolding a using Cons.IH[OF rest] s1 s2 by (simp add: Let_def)
qed

lemma enumerate_steps:
  "enumerate 0 PROCESSING_STEPS =
     [(0, ''Loading audio file''), (1, ''Analyzing frequency spectrum''),
      (2, ''Separating vocals''), (3, ''Separating drums''), (4, ''Separating bass''),
      (5, ''Separating other instruments''), (6, ''Writing output files'')]"
  by (simp add: PROCESSING_STEPS_def enumerate_eq_zip upt_rec)

lemma length_steps: "length PROCESSING_STEPS = 7"
  by (simp add: PROCESSING_STEPS_def)

lemma process_audio_returned:
  assumes "process_audio tm file_path cb s = (calls, Inr r, s')"
  shows "calls =
      [(''Loading audio file'', 1 / 7), (''Analyzing frequency spectrum'', 2 / 7),
       (''Separating vocals'', 3 / 7), (''Separating drums'', 4 / 7),
       (''Separating bass'', 5 / 7), (''Separating other instruments'', 6 / 7),
       (''Writing output files'', 1)]"
    and "stems r = generate_stems (Path file_path) stem_names []"
    and "duration r = time_time tm s' - time_time tm s"
proof -
  obtain g where
    g: "process_steps tm cb 7 (Path file_path) (enumerate 0 PROCESSING_STEPS) [] [] s =
          (calls, Inr g, s')"
    and r: "r = \<lparr>stems = g, duration = time_time tm s' - time_time tm s\<rparr>"
    using assms
    by (auto simp: process_audio_def Let_def length_steps split: prod.splits sum.splits)
  note ps = process_steps_returned[OF g]
  show "calls =
      [(''Loading audio file'', 1 / 7), (''Analyzing frequency spectrum'', 2 / 7),
       (''Separating vocals'', 3 / 7), (''Separating drums'', 4 / 7),
       (''Separating bass'', 5 / 7), (''Separating other instruments'', 6 / 7),
       (''Writing output files'', 1)]"
    using ps by (simp add: enumerate_steps)
  show "stems r = generate_stems (Path file_path) stem_names []"
    using ps r by (simp add: enumerate_steps)
  show "duration r = time_time tm s' - time_time tm s"
    using r by simp
qed

lemma process_audio_normal:
  assumes "\<forall>i<7. \<forall>s. \<exists>s'. cb (PROCESSING_STEPS ! i) (of_nat (i + 1) / 7) s = (Inr (), s')"
    and "\<forall>s. \<exists>s'. time_sleep tm (1 / 2) s = (Inr (), s')"
  shows "\<exists>calls r s'. process_audio tm file_path cb s = (calls, Inr r, s')"
proof -
  have "\<forall>(i, step) \<in> set (enumerate 0 PROCESSING_STEPS). \<forall>s. \<exists>s'.
      cb step (of_nat (i + 1) / of_nat 7) s = (Inr (), s')"
    using assms(1) by (auto simp: in_set_enumerate_eq length_steps)
  from process_steps_normal[OF this assms(2)]
  obtain calls g s' where
    "process_steps tm cb 7 (Path file_path) (enumerate 0 PROCESSING_STEPS) [] [] s =
       (calls, Inr g, s')"
    by blast
  then show ?thesis
    by (simp add: process_audio_def Let_def length_steps)
qed

lemma process_steps_Nil_returns:
  "(process_steps tm cb n path [] gen calls s = (c, Inr g, s')) =
   (c = calls \<and> g = gen \<and> s' = s)"
  by auto

lemma process_steps_Cons_returns:
  "(process_steps tm cb n path ((i, step) # rest) gen calls s = (c, Inr g, s')) =
   (\<exists>a b. cb step (of_nat (i + 1) / of_nat n) s = (Inr (), a) \<and>
      time_sleep tm (1 / 2) a = (Inr (), b) \<and>
      process_steps tm cb n path rest
        (if int i = int n - 1 then generate_stems path stem_names gen else gen)
        (calls @ [(step, of_nat (i + 1) / of_nat n)]) b = (c, Inr g, s'))"
  by (auto simp: Let_def split: prod.splits sum.splits)

lemma process_audio_returns_iff:
  "(process_audio tm file_path cb s = (calls, Inr r, s')) =
   (\<exists>g. process_steps tm cb 7 (Path file_path) (enumerate 0 PROCESSING_STEPS) [] [] s =
          (calls, Inr g, s') \<and>
        r = \<lparr>stems = g, duration = time_time tm s' - time_time tm s\<rparr>)"
  by (auto simp: process_audio_def Let_def length_steps split: prod.splits sum.splits)

lemma expected_calls:
  "map (\<lambda>i. (PROCESSING_STEPS ! i, of_nat (i + 1) / 7)) [0..<7] =
     [(''Loading audio file'', 1 / 7 :: rat), (''Analyzing frequency spectrum'', 2 / 7),
      (''Separating vocals'', 3 / 7), (''Separating drums'', 4 / 7),
      (''Separating bass'', 5 / 7), (''Separating other instruments'', 6 / 7),
      (''Writing output files'', 1)]"
  by (simp add: PROCESSING_STEPS_def upt_rec)

text \<open>
  Claim C1. \<open>process_audio\<close> returns exactly when the progress callback, applied to
  the \<open>i\<close>-th name of \<open>PROCESSING_STEPS\<close> and the fraction \<open>(i+1)/7\<close> for
  \<open>i\<close> from 0 to 6 in this order, each application on the state that the sleep after
  the one before has left, returns normally every time, and no sleep is interrupted.
  The state it returns with is the state after these seven applications and the seven
  sleeps: all of them have happened by then. The record of the invocations has seven
  entries, the names in the order of \<open>PROCESSING_STEPS\<close> and the fractions strictly
  increasing from \<open>1/7\<close> to \<open>7/7\<close>.
\<close>

theorem process_audio_invokes_callback:
  "((process_audio tm file_path progress_callback s = (calls, Inr r, s')) =
    (\<exists>a0 b0 a1 b1 a2 b2 a3 b3 a4 b4 a5 b5 a6.
       progress_callback (PROCESSING_STEPS ! 0) (1 / 7) s = (Inr (), a0) \<and>
       time_sleep tm (1 / 2) a0 = (Inr (), b0) \<and>
       progress_callback (PROCESSING_STEPS ! 1) (2 / 7) b0 = (Inr (), a1) \<and>
       time_sleep tm (1 / 2) a1 = (Inr (), b1) \<and>
       progress_callback (PROCESSING_STEPS ! 2) (3 / 7) b1 = (Inr (), a2) \<and>
       time_sleep tm (1 / 2) a2 = (Inr (), b2) \<and>
       progress_callback (PROCESSING_STEPS ! 3) (4 / 7) b2 = (Inr (), a3) \<and>
       time_sleep tm (1 / 2) a3 = (Inr (), b3) \<and>
       progress_callback (PROCESSING_STEPS ! 4) (5 / 7) b3 = (Inr (), a4) \<and>
       time_sleep tm (1 / 2) a4 = (Inr (), b4) \<and>
       progress_callback (PROCESSING_STEPS ! 5) (6 / 7) b4 = (Inr (), a5) \<and>
       time_sleep tm (1 / 2) a5 = (Inr (), b5) \<and>
       progress_callback (PROCESSING_STEPS ! 6) (7 / 7) b5 = (Inr (), a6) \<and>
       time_sleep tm (1 / 2) a6 = (Inr (), s') \<and>
       calls = map (\<lambda>i. (PROCESSING_STEPS ! i, of_nat (i + 1) / 7)) [0..<7] \<and>
       r = \<lparr>stems = generate_stems (Path file_path) stem_names [],
            duration = time_time tm s' - time_time tm s\<rparr>)) \<and>
   (process_audio tm file_path progress_callback s = (calls, Inr r, s') \<longrightarrow>
      length calls = 7 \<and>
      map fst calls = PROCESSING_STEPS \<and>
      map snd calls = [1 / 7, 2 / 7, 3 / 7, 4 / 7, 5 / 7, 6 / 7, 7 / 7] \<and>
      sorted_wrt (<) (map snd calls))"
proof -
  have steps: "PROCESSING_STEPS ! 0 = ''Loading audio file''"
    "PROCESSING_STEPS ! 1 = ''Analyzing frequency spectrum''"
    "PROCESSING_STEPS ! 2 = ''Separating vocals''"
    "PROCESSING_STEPS ! 3 = ''Separating drums''"
    "PROCESSING_STEPS ! 4 = ''Separating bass''"
    "PROCESSING_STEPS ! 5 = ''Separating other instruments''"
    "PROCESSING_STEPS ! 6 = ''Writing output files''"
    by (simp_all add: PROCESSING_STEPS_def)
  have chain: "(process_audio tm file_path progress_callback s = (calls, Inr r, s')) =
    (\<exists>a0 b0 a1 b1 a2 b2 a3 b3 a4 b4 a5 b5 a6.
       progress_callback (PROCESSING_STEPS ! 0) (1 / 7) s = (Inr (), a0) \<and>
       time_sleep tm (1 / 2) a0 = (Inr (), b0) \<and>
       progress_callback (PROCESSING_STEPS ! 1) (2 / 7) b0 = (Inr (), a1) \<and>
       time_sleep tm (1 / 2) a1 = (Inr (), b1) \<and>
       progress_callback (PROCESSING_STEPS ! 2) (3 / 7) b1 = (Inr (), a2) \<and>
       time_sleep tm (1 / 2) a2 = (Inr (), b2) \<and>
       progress_callback (PROCESSING_STEPS ! 3) (4 / 7) b2 = (Inr (), a3) \<and>
       time_sleep tm (1 / 2) a3 = (Inr (), b3) \<and>
       progress_callback (PROCESSING_STEPS ! 4) (5 / 7) b3 = (Inr (), a4) \<and>
       time_sleep tm (1 / 2) a4 = (Inr (), b4) \<and>
       progress_callback (PROCESSING_STEPS ! 5) (6 / 7) b4 = (Inr (), a5) \<and>
       time_sleep tm (1 / 2) a5 = (Inr (), b5) \<and>
       progress_callback (PROCESSING_STEPS ! 6) (7 / 7) b5 = (Inr (), a6) \<and>
       time_sleep tm (1 / 2) a6 = (Inr (), s') \<and>
       calls = map (\<lambda>i. (PROCESSING_STEPS ! i, of_nat (i + 1) / 7)) [0..<7] \<and>
       r = \<lparr>stems = generate_stems (Path file_path) stem_names [],
            duration = time_time tm s' - time_time tm s\<rparr>)"
    unfolding expected_calls steps
    by (simp del: process_steps.simps add: process_audio_returns_iff enumerate_steps
        process_steps_Cons_returns process_steps_Nil_returns) blast
  have log: "length calls = 7 \<and> map fst calls = PROCESSING_STEPS \<and>
      map snd calls = [1 / 7, 2 / 7, 3 / 7, 4 / 7, 5 / 7, 6 / 7, 7 / 7] \<and>
      sorted_wrt (<) (map snd calls)"
    if "process_audio tm file_path progress_callback s = (calls, Inr r, s')"
  proof -
    from that chain have "calls = map (\<lambda>i. (PROCESSING_STEPS ! i, of_nat (i + 1) / 7)) [0..<7]"
      by blast
    then show ?thesis
      unfolding expected_calls by (simp add: PROCESSING_STEPS_def)
  qed
  show ?thesis using chain log by blast
qed

lemma recorded_run:
  "process_audio recording_time ''song.mp3'' recording_callback (0, []) =
     ([(''Loading audio file'', 1 / 7), (''Analyzing frequency spectrum'', 2 / 7),
       (''Separating vocals'', 3 / 7), (''Separating drums'', 4 / 7),
       (''Separating bass'', 5 / 7), (''Separating other instruments'', 6 / 7),
       (''Writing output files'', 1)],
      Inr \<lparr>stems = [''song_vocals.mp3'', ''song_drums.mp3'', ''song_bass.mp3'',
                    ''song_other.mp3''],
           duration = 7 / 2\<rparr>,
      (7 / 2,
       [(''Loading audio file'', 1 / 7), (''Analyzing frequency spectrum'', 2 / 7),
        (''Separating vocals'', 3 / 7), (''Separating drums'', 4 / 7),
        (''Separating bass'', 5 / 7), (''Separating other instruments'', 6 / 7),
        (''Writing output files'', 1)]))"
  by code_simp

theorem process_audio_invokes_callback_witness:
  "process_audio recording_time ''song.mp3'' recording_callback (0, []) =
     ([(''Loading audio file'', 1 / 7), (''Analyzing frequency spectrum'', 2 / 7),
       (''Separating vocals'', 3 / 7), (''Separating drums'', 4 / 7),
       (''Separating bass'', 5 / 7), (''Separating other instruments'', 6 / 7),
       (''Writing output files'', 1)],
      Inr \<lparr>stems = [''song_vocals.mp3'', ''song_drums.mp3'', ''song_bass.mp3'',
                    ''song_other.mp3''],
           duration = 7 / 2\<rparr>,
      (7 / 2,
       [(''Loading audio file'', 1 / 7), (''Analyzing frequency spectrum'', 2 / 7),
        (''Separating vocals'', 3 / 7), (''Separating drums'', 4 / 7),
        (''Separating bass'', 5 / 7), (''Separating other instruments'', 6 / 7),
        (''Writing output files'', 1)])) \<and>
   (\<exists>a0 b0 a1 b1 a2 b2 a3 b3 a4 b4 a5 b5 a6.
       recording_callback (PROCESSING_STEPS ! 0) (1 / 7) (0, []) = (Inr (), a0) \<and>
       time_sleep recording_time (1 / 2) a0 = (Inr (), b0) \<and>
       recording_callback (PROCESSING_STEPS ! 1) (2 / 7) b0 = (Inr (), a1) \<and>
       time_sleep recording_time (1 / 2) a1 = (Inr (), b1) \<and>
       recording_callback (PROCESSING_STEPS ! 2) (3 / 7) b1 = (Inr (), a2) \<and>
       time_sleep recording_time (1 / 2) a2 = (Inr (), b2) \<and>
       recording_callback (PROCESSING_STEPS ! 3) (4 / 7) b2 = (Inr (), a3) \<and>
       time_sleep recording_time (1 / 2) a3 = (Inr (), b3) \<and>
       recording_callback (PROCESSING_STEPS ! 4) (5 / 7) b3 = (Inr (), a4) \<and>
       time_sleep recording_time (1 / 2) a4 = (Inr (), b4) \<and>
       recording_callback (PROCESSING_STEPS ! 5) (6 / 7) b4 = (Inr (), a5) \<and>
       time_sleep recording_time (1 / 2) a5 = (Inr (), b5) \<and>
       recording_callback (PROCESSING_STEPS ! 6) (7 / 7) b5 = (Inr (), a6) \<and>
       time_sleep recording_time (1 / 2) a6 =
         (Inr (),
          (7 / 2,
           [(''Loading audio file'', 1 / 7), (''Analyzing frequency spectrum'', 2 / 7),
            (''Separating vocals'', 3 / 7), (''Separating drums'', 4 / 7),
            (''Separating bass'', 5 / 7), (''Separating other instruments'', 6 / 7),
            (''Writing output files'', 1)])))"
proof -
  note tied = process_audio_invokes_callback
    [THEN conjunct1, THEN iffD1, OF recorded_run]
  show ?thesis
    using recorded_run tied by blast
qed


text \<open>
  Claim C7. \<open>process_audio\<close> raises nothing of its own: for every path string,
  validated or not, with a callback that returns normally at each of the seven stages
  and \<open>time.sleep\<close> not interrupted, it returns a result with a list of stems and a
  duration.
\<close>

theorem process_audio_returns:
  assumes "\<forall>i<7. \<forall>s. \<exists>s'.
      progress_callback (PROCESSING_STEPS ! i) (of_nat (i + 1) / 7) s = (Inr (), s')"
    and "\<forall>s. \<exists>s'. time_sleep tm (1 / 2) s = (Inr (), s')"
  shows "\<exists>calls r s'.
    process_audio tm file_path progress_callback s = (calls, Inr r, s') \<and>
    length (stems r) = 4 \<and>
    duration r = time_time tm s' - time_time tm s"
proof -
  from process_audio_normal[OF assms] obtain calls r s' where
    run: "process_audio tm file_path progress_callback s = (calls, Inr r, s')"
    by blast
  have four: "length (stems r) = 4"
    by (simp add: process_audio_returned(2)[OF run] generate_stems_eq stem_names_def)
  have elapsed: "duration r = time_time tm s' - time_time tm s"
    by (rule process_audio_returned(3)[OF run])
  show ?thesis
    by (intro exI conjI) (rule run four elapsed)+
qed

theorem process_audio_returns_witness:
  "\<exists>calls r s'.
    process_audio example_time ''no such file'' quiet_callback 0 = (calls, Inr r, s') \<and>
    length (stems r) = 4 \<and>
    duration r = time_time example_time s' - time_time example_time 0"
  by (rule process_audio_returns)
    (simp_all add: quiet_callback_def example_time_def)

section \<open>Paths that \<open>Path\<close> returns\<close>

lemma split_nonempty: "split c s \<noteq> []"
  by (induction s) (auto split: list.splits)

lemma split_no_sep: "x \<in> set (split c s) \<Longrightarrow> c \<notin> set x"
  by (induction s arbitrary: x) (auto split: if_splits list.splits)

lemma split_absent: "c \<notin> set s \<Longrightarrow> split c s = [s]"
  by (induction s) auto

lemma split_append_sep:
  "c \<notin> set x \<Longrightarrow> split c (x @ c # s) = x # split c s"
  by (induction x) (auto split: list.splits simp: split_nonempty)

lemma split_join_aux:
  "sep = [c] \<Longrightarrow> xs \<noteq> [] \<Longrightarrow> \<forall>x \<in> set xs. c \<notin> set x \<Longrightarrow> split c (join sep xs) = xs"
proof (induction sep xs rule: join.induct)
  case (1 sep)
  then show ?case by simp
next
  case (2 sep x)
  then show ?case by (simp add: split_absent)
next
  case (3 sep x y ys)
  then show ?case by (simp add: split_append_sep)
qed

lemma split_join:
  "xs \<noteq> [] \<Longrightarrow> \<forall>x \<in> set xs. c \<notin> set x \<Longrightarrow> split c (join [c] xs) = xs"
  by (rule split_join_aux) simp_all

lemma splitroot_anchor: "fst (splitroot s) \<in> {[], ''/'', ''//''}"
  by (simp add: splitroot_def Let_def)

lemma wf_Path: "wf_path (Path s)"
  using splitroot_anchor[of s]
  by (auto simp: wf_path_def Path_def split: prod.splits dest: split_no_sep)

lemma wf_parent: "wf_path p \<Longrightarrow> wf_path (parent p)"
  by (auto simp: wf_path_def parent_def dest: in_set_butlastD)

lemma Path_simple:
  assumes "key \<noteq> []" "key \<noteq> ''.''" "CHR ''/'' \<notin> set key"
  shows "Path key = \<lparr>anchor = [], names = [key]\<rparr>"
proof -
  have "hd key \<noteq> CHR ''/''" using assms(1,3) by (cases key) auto
  then have "splitroot key = ([], key)" by (simp add: splitroot_def)
  then show ?thesis using assms by (simp add: Path_def split_absent)
qed

lemma truediv_simple:
  assumes "key \<noteq> []" "key \<noteq> ''.''" "CHR ''/'' \<notin> set key"
  shows "truediv p key = p\<lparr>names := names p @ [key]\<rparr>"
  by (simp add: truediv_def Path_simple[OF assms])

lemma join_snoc:
  "join sep (xs @ [k]) = (if xs = [] then k else join sep xs @ sep @ k)"
  by (induction sep xs rule: join.induct) auto

lemma join_nonempty: "xs \<noteq> [] \<Longrightarrow> \<forall>x \<in> set xs. x \<noteq> [] \<Longrightarrow> join sep xs \<noteq> []"
  by (induction sep xs rule: join.induct) auto

lemma hd_join: "xs \<noteq> [] \<Longrightarrow> hd xs \<noteq> [] \<Longrightarrow> hd (join sep xs) = hd (hd xs)"
  by (induction sep xs rule: join.induct) auto

lemma name_no_slash: "wf_path p \<Longrightarrow> CHR ''/'' \<notin> set (name p)"
  by (cases "names p = []") (auto simp: wf_path_def name_def)

lemma stem_subset: "set (stem p) \<subseteq> set (name p)"
  by (auto simp: stem_def Let_def dest: in_set_takeD)

lemma suffix_subset: "set (suffix p) \<subseteq> set (name p)"
  by (auto simp: suffix_def Let_def dest: in_set_dropD)

lemma stem_names_no_slash: "l \<in> set stem_names \<Longrightarrow> CHR ''/'' \<notin> set l \<and> l \<noteq> []"
  by (auto simp: stem_names_def)

lemma stem_key:
  assumes "wf_path p" "l \<in> set stem_names"
  shows "CHR ''/'' \<notin> set (stem p @ ''_'' @ l @ suffix p)"
    and "stem p @ ''_'' @ l @ suffix p \<noteq> []"
    and "stem p @ ''_'' @ l @ suffix p \<noteq> ''.''"
proof -
  show "CHR ''/'' \<notin> set (stem p @ ''_'' @ l @ suffix p)"
    using name_no_slash[OF assms(1)] stem_subset[of p] suffix_subset[of p]
      stem_names_no_slash[OF assms(2)] by auto
  show "stem p @ ''_'' @ l @ suffix p \<noteq> []" by simp
  show "stem p @ ''_'' @ l @ suffix p \<noteq> ''.''"
  proof
    assume e: "stem p @ ''_'' @ l @ suffix p = ''.''"
    have "CHR ''_'' \<in> set (stem p @ ''_'' @ l @ suffix p)" by simp
    then have "CHR ''_'' \<in> set ''.''" unfolding e .
    then show False by simp
  qed
qed

lemma str_Path:
  assumes "wf_path p"
  shows "Path (str p) = p"
proof (cases "names p = []")
  case True
  obtain a ns where p: "p = \<lparr>anchor = a, names = ns\<rparr>" by (cases p)
  have "a = [] \<or> a = ''/'' \<or> a = ''//''" "ns = []"
    using assms True by (simp_all add: wf_path_def p)
  then show ?thesis
    unfolding p by (auto simp: str_def Path_def splitroot_def)
next
  case False
  let ?j = "join ''/'' (names p)"
  have ne: "\<forall>x \<in> set (names p). x \<noteq> []" and ns: "\<forall>x \<in> set (names p). CHR ''/'' \<notin> set x"
    and nd: "\<forall>x \<in> set (names p). x \<noteq> ''.''"
    using assms by (auto simp: wf_path_def)
  have j: "?j \<noteq> []" using join_nonempty[OF False ne] .
  have "hd (names p) \<in> set (names p)" using False by simp
  then have h: "hd (names p) \<noteq> []" "CHR ''/'' \<notin> set (hd (names p))" using ne ns by auto
  then have "hd (hd (names p)) \<noteq> CHR ''/''" by (cases "hd (names p)") auto
  then have hj: "hd ?j \<noteq> CHR ''/''" using hd_join[OF False h(1)] by simp
  have sp: "split CHR ''/'' ?j = names p" using split_join[OF False ns] .
  have flt: "filter (\<lambda>x. x \<noteq> [] \<and> x \<noteq> ''.'') (names p) = names p"
    using ne nd by (simp add: filter_id_conv)
  have dw: "dropWhile (\<lambda>c. c = CHR ''/'') ?j = ?j" using j hj by (cases ?j) auto
  have strp: "str p = anchor p @ ?j" using j by (simp add: str_def Let_def)
  have "anchor p = [] \<or> anchor p = ''/'' \<or> anchor p = ''//''"
    using assms by (simp add: wf_path_def)
  then have "splitroot (anchor p @ ?j) = (anchor p, ?j)"
    using j hj dw by (auto simp: splitroot_def Let_def)
  then show ?thesis by (simp add: strp Path_def sp flt)
qed


lemma str_child:
  assumes "wf_path p" and "key \<noteq> []"
  shows "str (p\<lparr>names := names p @ [key]\<rparr>) =
    (if names p = [] then anchor p @ key else str p @ ''/'' @ key)"
proof (cases "names p = []")
  case True
  then show ?thesis using assms(2) by (simp add: str_def)
next
  case False
  have "\<forall>x \<in> set (names p). x \<noteq> []" using assms(1) by (simp add: wf_path_def)
  then have "join ''/'' (names p) \<noteq> []" using False by (simp add: join_nonempty)
  then show ?thesis using False by (simp add: str_def join_snoc)
qed

lemma wf_child:
  assumes "wf_path p" and "key \<noteq> []" and "key \<noteq> ''.''" and "CHR ''/'' \<notin> set key"
  shows "wf_path (p\<lparr>names := names p @ [key]\<rparr>)"
  using assms by (auto simp: wf_path_def)

lemma stem_file:
  assumes "wf_path P" and "l \<in> set stem_names"
  shows "str (truediv (parent P) (stem P @ ''_'' @ l @ suffix P)) =
      (if names (parent P) = [] then anchor P else str (parent P) @ ''/'') @
      stem P @ ''_'' @ l @ suffix P"
    and "parent (Path (str (truediv (parent P) (stem P @ ''_'' @ l @ suffix P)))) = parent P"
    and "name (Path (str (truediv (parent P) (stem P @ ''_'' @ l @ suffix P)))) =
      stem P @ ''_'' @ l @ suffix P"
proof -
  let ?key = "stem P @ ''_'' @ l @ suffix P"
  have wfp: "wf_path (parent P)" using assms(1) by (rule wf_parent)
  note k = stem_key[OF assms]
  have child: "truediv (parent P) ?key = (parent P)\<lparr>names := names (parent P) @ [?key]\<rparr>"
    by (rule truediv_simple[OF k(2) k(3) k(1)])
  have wfc: "wf_path (truediv (parent P) ?key)"
    unfolding child by (rule wf_child[OF wfp k(2) k(3) k(1)])
  show "str (truediv (parent P) ?key) =
      (if names (parent P) = [] then anchor P else str (parent P) @ ''/'') @ ?key"
    unfolding child using str_child[OF wfp k(2)] by (simp add: parent_def)
  show "parent (Path (str (truediv (parent P) ?key))) = parent P"
    unfolding str_Path[OF wfc] unfolding child by (simp add: parent_def)
  show "name (Path (str (truediv (parent P) ?key))) = ?key"
    unfolding str_Path[OF wfc] unfolding child by (simp add: name_def)
qed

lemma no_last_index:
  assumes "\<forall>(i, step) \<in> set items. int i \<noteq> int n - 1"
  shows "foldl (\<lambda>g (i, step). if int i = int n - 1
                   then generate_stems path stem_names g else g) gen items = gen"
  using assms by (induction items arbitrary: gen) auto

lemma take_enumerate_index:
  "(i, x) \<in> set (take k (enumerate 0 xs)) \<Longrightarrow> i < k"
  by (auto simp: enumerate_eq_zip take_zip in_set_conv_nth dest!: set_zip_leftD)

lemma generated_stems:
  "generate_stems (Path file_path) stem_names [] =
     map (\<lambda>label.
           (if names (parent (Path file_path)) = [] then anchor (Path file_path)
            else str (parent (Path file_path)) @ ''/'') @
           stem (Path file_path) @ ''_'' @ label @ suffix (Path file_path)) stem_names"
proof -
  have "generate_stems (Path file_path) stem_names [] =
      map (\<lambda>l. str (truediv (parent (Path file_path))
                  (stem (Path file_path) @ ''_'' @ l @ suffix (Path file_path)))) stem_names"
    by (simp add: generate_stems_eq)
  also have "\<dots> =
      map (\<lambda>label.
           (if names (parent (Path file_path)) = [] then anchor (Path file_path)
            else str (parent (Path file_path)) @ ''/'') @
           stem (Path file_path) @ ''_'' @ label @ suffix (Path file_path)) stem_names"
    by (rule map_cong[OF refl]) (erule stem_file(1)[OF wf_Path])
  finally show ?thesis .
qed

lemma generated_stems_parent:
  "map (\<lambda>x. parent (Path x)) (generate_stems (Path file_path) stem_names []) =
     map (\<lambda>label. parent (Path file_path)) stem_names"
proof -
  have "map (\<lambda>x. parent (Path x)) (generate_stems (Path file_path) stem_names []) =
      map (\<lambda>l. parent (Path (str (truediv (parent (Path file_path))
                  (stem (Path file_path) @ ''_'' @ l @ suffix (Path file_path)))))) stem_names"
    by (simp add: generate_stems_eq comp_def)
  also have "\<dots> = map (\<lambda>label. parent (Path file_path)) stem_names"
    by (rule map_cong[OF refl]) (erule stem_file(2)[OF wf_Path])
  finally show ?thesis .
qed

lemma generated_stems_name:
  "map (\<lambda>x. name (Path x)) (generate_stems (Path file_path) stem_names []) =
     map (\<lambda>label. stem (Path file_path) @ ''_'' @ label @ suffix (Path file_path)) stem_names"
proof -
  have "map (\<lambda>x. name (Path x)) (generate_stems (Path file_path) stem_names []) =
      map (\<lambda>l. name (Path (str (truediv (parent (Path file_path))
                  (stem (Path file_path) @ ''_'' @ l @ suffix (Path file_path)))))) stem_names"
    by (simp add: generate_stems_eq comp_def)
  also have "\<dots> =
      map (\<lambda>label. stem (Path file_path) @ ''_'' @ label @ suffix (Path file_path)) stem_names"
    by (rule map_cong[OF refl]) (erule stem_file(3)[OF wf_Path])
  finally show ?thesis .
qed

section \<open>The stems\<close>

text \<open>
  Claim C2. For every input path, with a callback that returns normally at each of the
  seven stages and \<open>time.sleep\<close> not interrupted, \<open>process_audio\<close> returns a result
  whose \<open>stems\<close> are exactly four strings, in the order of the labels
  \<open>vocals, drums, bass, other\<close>, each the string of the path
  \<open>parent / "{base}_{label}{extension}"\<close>: the parent directory of the input joined
  with a name made of the base name and the extension of the input. As a string that
  is the string of the parent, a slash and the name when the parent directory has a
  name, and the root (empty, \<open>/\<close> or \<open>//\<close>) directly followed by the name when it
  has none. Parsed again, every stem has the parent directory of the input and that
  name. The stems are generated at the last stage only: after any six or fewer stages,
  none has been generated.
\<close>

theorem process_audio_stems:
  assumes "\<forall>i<7. \<forall>s. \<exists>s'.
      progress_callback (PROCESSING_STEPS ! i) (of_nat (i + 1) / 7) s = (Inr (), s')"
    and "\<forall>s. \<exists>s'. time_sleep tm (1 / 2) s = (Inr (), s')"
  shows "\<exists>calls r s'.
    process_audio tm file_path progress_callback s = (calls, Inr r, s') \<and>
    length (stems r) = 4 \<and>
    stems r =
      map (\<lambda>label. str (truediv (parent (Path file_path))
             (stem (Path file_path) @ ''_'' @ label @ suffix (Path file_path))))
        [''vocals'', ''drums'', ''bass'', ''other''] \<and>
    stems r =
      map (\<lambda>label.
            (if names (parent (Path file_path)) = [] then anchor (Path file_path)
             else str (parent (Path file_path)) @ ''/'') @
            stem (Path file_path) @ ''_'' @ label @ suffix (Path file_path))
        [''vocals'', ''drums'', ''bass'', ''other''] \<and>
    map (\<lambda>x. parent (Path x)) (stems r) = replicate 4 (parent (Path file_path)) \<and>
    map (\<lambda>x. name (Path x)) (stems r) =
      map (\<lambda>label. stem (Path file_path) @ ''_'' @ label @ suffix (Path file_path))
        [''vocals'', ''drums'', ''bass'', ''other''] \<and>
    (\<forall>k c g t. k \<le> 6 \<longrightarrow>
       process_steps tm progress_callback 7 (Path file_path)
         (take k (enumerate 0 PROCESSING_STEPS)) [] [] s = (c, Inr g, t) \<longrightarrow> g = [])"
proof -
  from process_audio_normal [OF assms] obtain calls r s' where
    run: "process_audio tm file_path progress_callback s = (calls, Inr r, s')"
    by blast
  note st = process_audio_returned(2) [OF run]
  have joined: "stems r =
      map (\<lambda>label. str (truediv (parent (Path file_path))
             (stem (Path file_path) @ ''_'' @ label @ suffix (Path file_path))))
        [''vocals'', ''drums'', ''bass'', ''other'']"
    unfolding st generate_stems_eq stem_names_def by simp
  have four: "length (stems r) = 4"
    unfolding joined by simp
  have strings: "stems r =
      map (\<lambda>label.
            (if names (parent (Path file_path)) = [] then anchor (Path file_path)
             else str (parent (Path file_path)) @ ''/'') @
            stem (Path file_path) @ ''_'' @ label @ suffix (Path file_path))
        [''vocals'', ''drums'', ''bass'', ''other'']"
    unfolding st generated_stems unfolding stem_names_def ..
  have parents: "map (\<lambda>x. parent (Path x)) (stems r) = replicate 4 (parent (Path file_path))"
    unfolding st generated_stems_parent by (simp add: stem_names_def numeral_eq_Suc)
  have file_names: "map (\<lambda>x. name (Path x)) (stems r) =
      map (\<lambda>label. stem (Path file_path) @ ''_'' @ label @ suffix (Path file_path))
        [''vocals'', ''drums'', ''bass'', ''other'']"
    unfolding st generated_stems_name unfolding stem_names_def ..
  have last_only: "\<forall>k c g t. k \<le> 6 \<longrightarrow>
       process_steps tm progress_callback 7 (Path file_path)
         (take k (enumerate 0 PROCESSING_STEPS)) [] [] s = (c, Inr g, t) \<longrightarrow> g = []"
  proof (intro allI impI)
    fix k c g t
    assume k: "k \<le> (6::nat)"
      and part: "process_steps tm progress_callback 7 (Path file_path)
         (take k (enumerate 0 PROCESSING_STEPS)) [] [] s = (c, Inr g, t)"
    have "\<forall>(i, step) \<in> set (take k (enumerate 0 PROCESSING_STEPS)). int i \<noteq> int 7 - 1"
      using k by (auto dest!: take_enumerate_index)
    from no_last_index [OF this] process_steps_returned [OF part] show "g = []"
      by simp
  qed
  show ?thesis
    by (intro exI conjI) (rule run four joined strings parents file_names last_only)+
qed

theorem process_audio_stems_witness:
  "\<exists>calls r s'.
     process_audio example_time ''song.mp3'' quiet_callback 0 = (calls, Inr r, s') \<and>
     stems r = [''song_vocals.mp3'', ''song_drums.mp3'', ''song_bass.mp3'', ''song_other.mp3'']"
proof -
  have callback: "\<forall>i<7. \<forall>s::rat. \<exists>s'.
      quiet_callback (PROCESSING_STEPS ! i) (of_nat (i + 1) / 7) s = (Inr (), s')"
    by (simp add: quiet_callback_def)
  have sleep: "\<forall>s. \<exists>s'. time_sleep example_time (1 / 2) s = (Inr (), s')"
    by (simp add: example_time_def)
  have evaluated:
    "map (\<lambda>label. str (truediv (parent (Path ''song.mp3''))
            (stem (Path ''song.mp3'') @ ''_'' @ label @ suffix (Path ''song.mp3''))))
       [''vocals'', ''drums'', ''bass'', ''other''] =
     [''song_vocals.mp3'', ''song_drums.mp3'', ''song_bass.mp3'', ''song_other.mp3'']"
    by code_simp
  from process_audio_stems [OF callback sleep, of "''song.mp3''" 0]
  obtain calls r s' where
    "process_audio example_time ''song.mp3'' quiet_callback 0 = (calls, Inr r, s')"
    and "stems r =
      map (\<lambda>label. str (truediv (parent (Path ''song.mp3''))
            (stem (Path ''song.mp3'') @ ''_'' @ label @ suffix (Path ''song.mp3''))))
        [''vocals'', ''drums'', ''bass'', ''other'']"
    by blast
  then show ?thesis
    unfolding evaluated by blast
qed

text \<open>The second example of the specification, a path with directories.\<close>

lemma track_stems:
  "fst (snd (process_audio example_time ''/a/b/track.flac'' quiet_callback 0)) =
     Inr \<lparr>stems = [''/a/b/track_vocals.flac'', ''/a/b/track_drums.flac'',
                   ''/a/b/track_bass.flac'', ''/a/b/track_other.flac''],
          duration = 7 / 2\<rparr>"
  by code_simp

section \<open>The command\<close>

lemma env_emit: "env (emit c w) = env w"
  by (simp add: emit_def)

lemma env_display_header: "env (display_header verbose audio_file output_dir w) = env w"
  by (simp add: display_header_def Let_def print_info_def env_emit split: option.splits)

lemma update_progress_emit:
  "update_progress lib description fraction w =
     (Inr (), emit (ProgressUpdate (''[cyan]'' @ description) (percentage lib fraction)) w)"
  by (simp add: update_progress_def Let_def)

lemma sleep_on_env:
  "time_sleep (on_env tm) d w =
     (case time_sleep tm d (env w) of (r, e) \<Rightarrow> (r, w\<lparr>env := e\<rparr>))"
  by (simp add: on_env_def)

text \<open>The run of the loop on the world of the command is, on the \<open>env\<close> part, the
  run with a callback that does nothing: the callback of \<open>separate\<close> only writes
  to the console, and the \<open>time\<close> module does not read it.\<close>

lemma process_steps_on_env:
  "process_steps (on_env tm) (update_progress lib) n path items gen calls w = (c, r, w') \<Longrightarrow>
   process_steps tm quiet_callback n path items gen calls (env w) = (c, r, env w')"
proof (induction items arbitrary: gen calls w)
  case Nil
  then show ?case by auto
next
  case (Cons a items)
  obtain i step where a: "a = (i, step)" by (cases a)
  let ?progress = "of_nat (i + 1) / of_nat n :: rat"
  let ?calls = "calls @ [(step, ?progress)]"
  let ?gen = "if int i = int n - 1 then generate_stems path stem_names gen else gen"
  obtain w1 where up: "update_progress lib step ?progress w = (Inr (), w1)"
    and w1: "env w1 = env w"
    by (simp add: update_progress_emit env_emit)
  have quiet: "quiet_callback step ?progress (env w) = (Inr (), env w)"
    by (simp add: quiet_callback_def)
  obtain res e where sl: "time_sleep tm (1 / 2) (env w) = (res, e)"
    by (cases "time_sleep tm (1 / 2) (env w)")
  have slw: "time_sleep (on_env tm) (1 / 2) w1 = (res, w1\<lparr>env := e\<rparr>)"
    using sl by (simp add: sleep_on_env w1)
  show ?case
  proof (cases res)
    case (Inl x)
    have "process_steps (on_env tm) (update_progress lib) n path (a # items) gen calls w =
        (?calls, Inl x, w1\<lparr>env := e\<rparr>)"
      by (simp only: a process_steps.simps Let_def up slw Inl prod.case sum.case)
    with Cons.prems have "c = ?calls" "r = Inl x" "env w' = e"
      by auto
    moreover have "process_steps tm quiet_callback n path (a # items) gen calls (env w) =
        (?calls, Inl x, e)"
      by (simp only: a process_steps.simps Let_def quiet sl Inl prod.case sum.case)
    ultimately show ?thesis by simp
  next
    case (Inr u)
    have "process_steps (on_env tm) (update_progress lib) n path (a # items) gen calls w =
        process_steps (on_env tm) (update_progress lib) n path items ?gen ?calls
          (w1\<lparr>env := e\<rparr>)"
      by (simp only: a process_steps.simps Let_def up slw Inr prod.case sum.case)
    with Cons.prems have
      "process_steps (on_env tm) (update_progress lib) n path items ?gen ?calls
         (w1\<lparr>env := e\<rparr>) = (c, r, w')"
      by simp
    from Cons.IH [OF this] have
      "process_steps tm quiet_callback n path items ?gen ?calls e = (c, r, env w')"
      by simp
    moreover have "process_steps tm quiet_callback n path (a # items) gen calls (env w) =
        process_steps tm quiet_callback n path items ?gen ?calls e"
      by (simp only: a process_steps.simps Let_def quiet sl Inr prod.case sum.case)
    ultimately show ?thesis by simp
  qed
qed

lemma process_audio_on_env:
  assumes "process_audio (on_env tm) file_path (update_progress lib) w = (c, r, w')"
  shows "process_audio tm file_path quiet_callback (env w) = (c, r, env w')"
proof -
  obtain c0 g w0 where
    g: "process_steps (on_env tm) (update_progress lib) 7 (Path file_path)
          (enumerate 0 PROCESSING_STEPS) [] [] w = (c0, g, w0)"
    using prod_cases3 by blast
  note e = process_steps_on_env [OF g]
  have t: "time_time (on_env tm) v = time_time tm (env v)" for v
    by (simp add: on_env_def)
  show ?thesis
    using assms
    by (cases g) (auto simp: process_audio_def Let_def length_steps g e t)
qed

text \<open>The display of the results ends normally when Rich accepts the markup of the
  panel and, in verbose mode, of every line of the listing; it raises an
  \<open>Exception\<close> otherwise.\<close>

lemma print_stems_accepted:
  "\<forall>(i, x) \<in> set items. markup_error lib (stem_line i x) = None \<Longrightarrow>
   \<exists>w'. print_stems lib items w = (Inr (), w')"
proof (induction items arbitrary: w)
  case Nil
  then show ?case by simp
next
  case (Cons a items)
  obtain i x where a: "a = (i, x)" by (cases a)
  from Cons.prems have line: "markup_error lib (stem_line i x) = None"
    and rest: "\<forall>(i, x) \<in> set items. markup_error lib (stem_line i x) = None"
    by (simp_all add: a)
  show ?case
    unfolding a using Cons.IH [OF rest] by (simp add: print_markup_def line)
qed

lemma print_stems_refused:
  "\<not> (\<forall>(i, x) \<in> set items. markup_error lib (stem_line i x) = None) \<Longrightarrow>
   \<exists>m w'. print_stems lib items w = (Inl (Exception m), w')"
proof (induction items arbitrary: w)
  case Nil
  then show ?case by simp
next
  case (Cons a items)
  obtain i x where a: "a = (i, x)" by (cases a)
  show ?case
  proof (cases "markup_error lib (stem_line i x)")
    case (Some m)
    then show ?thesis
      unfolding a by (simp add: print_markup_def)
  next
    case None
    with Cons.prems have
      "\<not> (\<forall>(i, x) \<in> set items. markup_error lib (stem_line i x) = None)"
      by (simp add: a)
    from Cons.IH [OF this] show ?thesis
      unfolding a by (simp add: print_markup_def None)
  qed
qed

lemma display_results_accepted:
  assumes "markup_error lib (success_message lib result) = None"
    and "verbose \<longrightarrow>
      (\<forall>(i, x) \<in> set (enumerate 1 (stems result)). markup_error lib (stem_line i x) = None)"
  shows "\<exists>w'. display_results lib verbose result w = (Inr (), w')"
proof (cases verbose)
  case False
  then show ?thesis
    by (simp add: display_results_def Let_def print_panel_def assms(1))
next
  case True
  with assms(2) have
    "\<forall>(i, x) \<in> set (enumerate 1 (stems result)). markup_error lib (stem_line i x) = None"
    by simp
  from print_stems_accepted [OF this] obtain w' where
    "print_stems lib (enumerate 1 (stems result))
       (emit (Print ([CHR 0x0A] @ ''[bold]Generated stems (full paths):[/bold]'') None)
         (emit (PrintPanel (success_message lib result) (check_mark @ '' Complete'') ''green'')
           (emit (Print [] None) w))) = (Inr (), w')"
    by blast
  then show ?thesis
    using True by (simp add: display_results_def Let_def print_panel_def assms(1))
qed

lemma display_results_refused:
  assumes "\<not> (markup_error lib (success_message lib result) = None \<and>
    (verbose \<longrightarrow>
      (\<forall>(i, x) \<in> set (enumerate 1 (stems result)). markup_error lib (stem_line i x) = None)))"
  shows "\<exists>m w'. display_results lib verbose result w = (Inl (Exception m), w')"
proof (cases "markup_error lib (success_message lib result)")
  case (Some m)
  then show ?thesis
    by (simp add: display_results_def Let_def print_panel_def)
next
  case None
  with assms have v: verbose
    and "\<not> (\<forall>(i, x) \<in> set (enumerate 1 (stems result)).
      markup_error lib (stem_line i x) = None)"
    by auto
  from print_stems_refused [OF this(2)] obtain m w' where
    "print_stems lib (enumerate 1 (stems result))
       (emit (Print ([CHR 0x0A] @ ''[bold]Generated stems (full paths):[/bold]'') None)
         (emit (PrintPanel (success_message lib result) (check_mark @ '' Complete'') ''green'')
           (emit (Print [] None) w))) = (Inl (Exception m), w')"
    by blast
  then show ?thesis
    using v by (simp add: display_results_def Let_def print_panel_def None)
qed

lemma separate_raised:
  assumes "validate_audio_file fs audio_file = Inl e"
  shows "separate lib tm fs audio_file output_dir verbose w =
    \<lparr>outcome = Raised e, processed = None, invocations = [],
     world = display_header verbose audio_file output_dir w\<rparr>"
  by (simp add: separate_def Let_def assms)

lemma separate_invalid:
  assumes "validate_audio_file fs audio_file = Inr (False, message)"
  shows "separate lib tm fs audio_file output_dir verbose w =
    \<lparr>outcome = SysExit 1, processed = None, invocations = [],
     world = emit (Print ([CHR 0x0A] @ ''[dim]Supported formats: '' @
                  join '', '' get_supported_formats @ ''[/dim]'' @ [CHR 0x0A]) (Some ''yellow''))
              (print_error message (display_header verbose audio_file output_dir w))\<rparr>"
  by (simp add: separate_def Let_def assms)

lemma separate_valid:
  assumes "validate_audio_file fs audio_file = Inr (True, message)"
    and "process_audio (on_env tm) audio_file (update_progress lib)
      (emit (ProgressAddTask ''[cyan]Initializing...'' 100)
        (emit ProgressStart (emit (Print [] None)
          (print_info (''Processing: '' @ name (Path audio_file))
            (display_header verbose audio_file output_dir w))))) = (c, r, w')"
  shows "processed (separate lib tm fs audio_file output_dir verbose w) = Some r"
    and "invocations (separate lib tm fs audio_file output_dir verbose w) = c"
    and "outcome (separate lib tm fs audio_file output_dir verbose w) =
      (case (case r of Inl e \<Rightarrow> (Inl e, emit ProgressStop w')
             | Inr result \<Rightarrow> display_results lib verbose result (emit ProgressStop w')) of
         (Inr u, w10) \<Rightarrow> Returned
       | (Inl KeyboardInterrupt, w10) \<Rightarrow> SysExit 130
       | (Inl (Exception e), w10) \<Rightarrow> SysExit 1)"
  using assms
  by (simp_all add: separate_def Let_def split: prod.splits sum.splits exn.splits)

lemma separate_processed:
  "processed (separate lib tm fs audio_file output_dir verbose w) =
     (case validate_audio_file fs audio_file of
        Inr (True, message) \<Rightarrow>
          Some (fst (snd (process_audio tm audio_file quiet_callback (env w))))
      | Inr (False, message) \<Rightarrow> None
      | Inl e \<Rightarrow> None)"
proof (cases "validate_audio_file fs audio_file")
  case (Inl e)
  then show ?thesis by (simp add: separate_raised)
next
  case (Inr pair)
  obtain v message where pair: "pair = (v, message)" by (cases pair)
  show ?thesis
  proof (cases v)
    case False
    with Inr pair show ?thesis by (simp add: separate_invalid)
  next
    case True
    let ?w7 = "emit (ProgressAddTask ''[cyan]Initializing...'' 100)
      (emit ProgressStart (emit (Print [] None)
        (print_info (''Processing: '' @ name (Path audio_file))
          (display_header verbose audio_file output_dir w))))"
    obtain c r w' where
      run: "process_audio (on_env tm) audio_file (update_progress lib) ?w7 = (c, r, w')"
      using prod_cases3 by blast
    have valid: "validate_audio_file fs audio_file = Inr (True, message)"
      using Inr pair True by simp
    have "env ?w7 = env w"
      by (simp add: env_emit print_info_def env_display_header)
    with process_audio_on_env [OF run]
    have "fst (snd (process_audio tm audio_file quiet_callback (env w))) = r" by simp
    moreover have "processed (separate lib tm fs audio_file output_dir verbose w) = Some r"
      by (rule separate_valid(1) [OF valid run])
    ultimately show ?thesis by (simp add: valid)
  qed
qed

lemma processed_parents:
  assumes "processed (separate lib tm fs audio_file output_dir verbose w) = Some (Inr r)"
  shows "map (\<lambda>x. parent (Path x)) (stems r) = replicate 4 (parent (Path audio_file))"
proof -
  from assms have "fst (snd (process_audio tm audio_file quiet_callback (env w))) = Inr r"
    by (auto simp: separate_processed split: sum.splits prod.splits bool.splits)
  then obtain c s' where "process_audio tm audio_file quiet_callback (env w) = (c, Inr r, s')"
    by (cases "process_audio tm audio_file quiet_callback (env w)") auto
  note st = process_audio_returned(2) [OF this]
  show ?thesis
    unfolding st generated_stems_parent by (simp add: stem_names_def numeral_eq_Suc)
qed

lemma click_path_accepted: "click_path fs file_okay dir_okay v = Accepted a \<Longrightarrow> a = v"
  by (auto simp: click_path_def split: sum.splits stat_error.splits if_splits)

lemma separate_command_cases:
  "separate_command lib tm fs audio_file output_dir verbose w = usage_error w \<or>
   (\<exists>e. separate_command lib tm fs audio_file output_dir verbose w = crashed e w) \<or>
   separate_command lib tm fs audio_file output_dir verbose w =
     separate lib tm fs audio_file output_dir verbose w"
  by (auto simp: separate_command_def split: conversion.splits option.splits
      dest!: click_path_accepted)

lemma separate_command_accepted:
  assumes "case output_dir of None \<Rightarrow> True
           | Some d \<Rightarrow> click_path fs False True d = Accepted d"
  shows "separate_command lib tm fs audio_file output_dir verbose w =
    (case click_path fs True True audio_file of
       Refused \<Rightarrow> usage_error w
     | Crashed e \<Rightarrow> crashed e w
     | Accepted a \<Rightarrow> separate lib tm fs a output_dir verbose w)"
  using assms
  by (auto simp: separate_command_def split: conversion.splits option.splits)

lemma example_separated:
  "processed (separate example_library example_time example_fs ''a/song.MP3''
      (Some ''out'') True example_world) =
     Some (Inr \<lparr>stems = [''a/song_vocals.MP3'', ''a/song_drums.MP3'', ''a/song_bass.MP3'',
                          ''a/song_other.MP3''],
                duration = 7 / 2\<rparr>)"
  by code_simp

lemma example_interrupted:
  "processed (separate example_library interrupted_time example_fs ''a/song.MP3''
      (Some ''out'') True example_world) = Some (Inl KeyboardInterrupt)"
  by code_simp

lemma example_failed:
  "processed (separate example_library failing_time example_fs ''a/song.MP3''
      None False example_world) = Some (Inl (Exception ''device lost''))"
  by code_simp

lemma example_invalid:
  "validate_audio_file example_fs ''music'' = Inr (False, ''Path is not a file: music'')"
  by code_simp

lemma example_bracket:
  "processed (separate example_library example_time example_fs ''x[/a].mp3''
      None True example_world) =
     Some (Inr \<lparr>stems = [''x[/a]_vocals.mp3'', ''x[/a]_drums.mp3'', ''x[/a]_bass.mp3'',
                          ''x[/a]_other.mp3''],
                duration = 7 / 2\<rparr>)"
  by code_simp








end
